theory Spec2Isabelle
  imports Complex_Main
begin

section \<open>Errors and observable effects\<close>

text \<open>
  Modelled from the spec: the exception classes of \<open>openai.error\<close> are not among the
  source files; the constructors below are the taxonomy the specification lists. The
  retry loop only distinguishes \<open>TryAgain\<close> from everything else. \<open>ValueError\<close> is
  the Python builtin raised by \<open>Moderation._prepare_create\<close>, \<open>OverflowError\<close> the builtin
  raised when an \<open>int\<close> too large for a \<open>float\<close> is added to one.
\<close>

datatype error =
    TryAgain
  | AuthenticationError
  | PermissionError
  | RateLimitError
  | InvalidRequestError
  | APIConnectionError bool
  | APIError
  | InvalidResponse
  | ValueError
  | OverflowError

text \<open>
  The effects a call of the retry wrapper can have on its environment, in program order.
  \<open>Dispatch\<close> is one invocation of \<open>super().create\<close> (awaited \<open>super().acreate\<close> on the
  asynchronous path), \<open>Clock_Read\<close> one call of \<open>time.time()\<close>, \<open>Log_Info\<close> one call of
  \<open>util.log_info\<close>. \<open>Sleep\<close> stands for a suspension step (\<open>time.sleep\<close>, or an awaited
  sleep); it is part of the vocabulary so that properties about suspension can be stated.
\<close>

datatype event = Dispatch | Clock_Read | Log_Info | Sleep

record world =
  calls :: nat
  reads :: nat
  trace :: "event list"

definition dispatch :: "world \<Rightarrow> world" where
  "dispatch w = w\<lparr>calls := Suc (calls w), trace := trace w @ [Dispatch]\<rparr>"

definition read_clock :: "world \<Rightarrow> world" where
  "read_clock w = w\<lparr>reads := Suc (reads w), trace := trace w @ [Clock_Read]\<rparr>"

definition log_info :: "world \<Rightarrow> world" where
  "log_info w = w\<lparr>trace := trace w @ [Log_Info]\<rparr>"

definition world0 :: world where
  "world0 = \<lparr>calls = 0, reads = 0, trace = []\<rparr>"

section \<open>Python floats\<close>

text \<open>
  \<open>time.time()\<close> returns a Python \<open>float\<close>, an IEEE 754 binary64 number, and
  \<open>start + timeout\<close> is rounded to the nearest such number, ties to even. A finite float is
  given by its exact rational value; the two zeros are not told apart (they compare equal).
  \<open>bits n\<close> is the bit length of \<open>n\<close>, \<open>ilog2 a\<close> the integer part of the binary logarithm of
  a positive \<open>a\<close>, and \<open>to_double x\<close> the float nearest to the rational \<open>x\<close>: 53 significant
  bits, least exponent \<open>-1022\<close> (below it the spacing stays \<open>2^-1074\<close>), and an infinity
  from \<open>2^1024\<close> on.
\<close>

datatype double = Finite rat | PInf | NInf | NaN

function bits :: "int \<Rightarrow> int" where
  "bits n = (if n \<le> 0 then 0 else 1 + bits (n div 2))"
  by pat_completeness auto
termination
  by (relation "measure nat") auto

declare bits.simps [simp del]

definition pow2 :: "int \<Rightarrow> rat" where
  "pow2 k = (if 0 \<le> k then 2 ^ nat k else 1 / 2 ^ nat (- k))"

definition ilog2 :: "rat \<Rightarrow> int" where
  "ilog2 a =
     (if 1 \<le> a then bits \<lfloor>a\<rfloor> - 1
      else - bits (\<lceil>1 / a\<rceil> - 1))"

definition round_half_even :: "rat \<Rightarrow> int" where
  "round_half_even x =
     (let f = \<lfloor>x\<rfloor>; d = x - of_int f in
      if d < 1 / 2 then f
      else if 1 / 2 < d then f + 1
      else if even f then f else f + 1)"

definition to_double :: "rat \<Rightarrow> double" where
  "to_double x =
     (if x = 0 then Finite 0
      else
        let a = \<bar>x\<bar>;
            q = pow2 (max (ilog2 a) (- 1022) - 52);
            y = of_int (round_half_even (a / q)) * q
        in if pow2 1024 \<le> y then (if 0 < x then PInf else NInf)
           else Finite (if 0 < x then y else - y))"

fun fadd :: "double \<Rightarrow> double \<Rightarrow> double" where
  "fadd NaN y = NaN"
| "fadd x NaN = NaN"
| "fadd PInf NInf = NaN"
| "fadd NInf PInf = NaN"
| "fadd PInf y = PInf"
| "fadd x PInf = PInf"
| "fadd NInf y = NInf"
| "fadd x NInf = NInf"
| "fadd (Finite a) (Finite b) = to_double (a + b)"

fun fneg :: "double \<Rightarrow> double" where
  "fneg (Finite a) = Finite (- a)"
| "fneg PInf = NInf"
| "fneg NInf = PInf"
| "fneg NaN = NaN"

definition fsub :: "double \<Rightarrow> double \<Rightarrow> double" where
  "fsub x y = fadd x (fneg y)"

fun fgt :: "double \<Rightarrow> double \<Rightarrow> bool" where
  "fgt NaN y = False"
| "fgt x NaN = False"
| "fgt PInf PInf = False"
| "fgt PInf y = True"
| "fgt x PInf = False"
| "fgt NInf y = False"
| "fgt x NInf = True"
| "fgt (Finite a) (Finite b) = (b < a)"

text \<open>
  The \<open>timeout\<close> argument is declared \<open>Optional[float]\<close>; Python also accepts an \<open>int\<close> there.
  In \<open>start + timeout\<close> an \<open>int\<close> is first converted to the nearest float, and the conversion
  raises \<open>OverflowError\<close> when there is none.
\<close>

datatype number = PyFloat double | PyInt int

fun deadline :: "double \<Rightarrow> number \<Rightarrow> error + double" where
  "deadline start (PyFloat t) = Inr (fadd start t)"
| "deadline start (PyInt i) =
     (case to_double (of_int i) of
        Finite q \<Rightarrow> Inr (fadd start (Finite q))
      | _ \<Rightarrow> Inl OverflowError)"

section \<open>ChatCompletion: the retry loop\<close>

text \<open>
  The environment of a call is \<open>disp\<close>, where \<open>disp i\<close> is the outcome of the dispatcher's
  invocation number \<open>i\<close> (counted from 0; \<open>Inl\<close> an exception, \<open>Inr\<close> the returned value), and
  \<open>clock\<close>, where \<open>clock j\<close> is the float returned by reading number \<open>j\<close> of \<open>time.time()\<close>.
  The body of \<open>while True\<close> is one unfolding of \<open>create_loop\<close>; a loop that never leaves
  is the value \<open>None\<close>. The conjunction \<open>timeout is not None and time.time() > start + timeout\<close>
  is short-circuit: without a timeout the clock is not read. With one, \<open>time.time()\<close> is
  called first, then \<open>start + timeout\<close> is computed, which may raise inside the handler.
\<close>

partial_function (option) create_loop ::
  "(nat \<Rightarrow> error + 'a) \<Rightarrow> (nat \<Rightarrow> double) \<Rightarrow> number option \<Rightarrow> double \<Rightarrow> world
    \<Rightarrow> ((error + 'a) \<times> world) option" where
  "create_loop disp clock timeout start w =
     (case disp (calls w) of
        Inr v \<Rightarrow> Some (Inr v, dispatch w)
      | Inl e \<Rightarrow>
          if e = TryAgain then
            (case timeout of
               None \<Rightarrow> create_loop disp clock timeout start (log_info (dispatch w))
             | Some t \<Rightarrow>
                 (case deadline start t of
                    Inl err \<Rightarrow> Some (Inl err, read_clock (dispatch w))
                  | Inr d \<Rightarrow>
                      if fgt (clock (reads (dispatch w))) d
                      then Some (Inl e, read_clock (dispatch w))
                      else create_loop disp clock timeout start
                             (log_info (read_clock (dispatch w)))))
          else Some (Inl e, dispatch w))"

declare create_loop.simps [code]

definition ChatCompletion_create ::
  "(nat \<Rightarrow> error + 'a) \<Rightarrow> (nat \<Rightarrow> double) \<Rightarrow> number option \<Rightarrow> ((error + 'a) \<times> world) option" where
  "ChatCompletion_create disp clock timeout =
     create_loop disp clock timeout (clock (reads world0)) (read_clock world0)"

partial_function (option) acreate_loop ::
  "(nat \<Rightarrow> error + 'a) \<Rightarrow> (nat \<Rightarrow> double) \<Rightarrow> number option \<Rightarrow> double \<Rightarrow> world
    \<Rightarrow> ((error + 'a) \<times> world) option" where
  "acreate_loop adisp clock timeout start w =
     (case adisp (calls w) of
        Inr v \<Rightarrow> Some (Inr v, dispatch w)
      | Inl e \<Rightarrow>
          if e = TryAgain then
            (case timeout of
               None \<Rightarrow> acreate_loop adisp clock timeout start (log_info (dispatch w))
             | Some t \<Rightarrow>
                 (case deadline start t of
                    Inl err \<Rightarrow> Some (Inl err, read_clock (dispatch w))
                  | Inr d \<Rightarrow>
                      if fgt (clock (reads (dispatch w))) d
                      then Some (Inl e, read_clock (dispatch w))
                      else acreate_loop adisp clock timeout start
                             (log_info (read_clock (dispatch w)))))
          else Some (Inl e, dispatch w))"

declare acreate_loop.simps [code]

definition ChatCompletion_acreate ::
  "(nat \<Rightarrow> error + 'a) \<Rightarrow> (nat \<Rightarrow> double) \<Rightarrow> number option \<Rightarrow> ((error + 'a) \<times> world) option" where
  "ChatCompletion_acreate adisp clock timeout =
     acreate_loop adisp clock timeout (clock (reads world0)) (read_clock world0)"

text \<open>
  A clock that reads whole seconds: reading \<open>k\<close> is \<open>float(k)\<close>.
\<close>

definition seconds :: "nat \<Rightarrow> double" where
  "seconds k = Finite (of_nat k)"

text \<open>
  Concrete environments for evaluation: a dispatcher (or clock) that plays the listed
  outcomes in order and answers \<open>d\<close> ever after.
\<close>

definition scripted :: "'b list \<Rightarrow> 'b \<Rightarrow> nat \<Rightarrow> 'b" where
  "scripted xs d i = (if i < length xs then xs ! i else d)"

text \<open>
  The property "a suspension step lies between any two consecutive dispatcher invocations",
  as a check on a trace. The flag says whether a \<open>Sleep\<close> has been seen since the last
  \<open>Dispatch\<close>; it starts \<open>True\<close>, the first invocation needs no suspension before it.
\<close>

fun suspends_between :: "bool \<Rightarrow> event list \<Rightarrow> bool" where
  "suspends_between ok [] = True"
| "suspends_between ok (Dispatch # es) = (ok \<and> suspends_between False es)"
| "suspends_between ok (Sleep # es) = suspends_between True es"
| "suspends_between ok (Clock_Read # es) = suspends_between ok es"
| "suspends_between ok (Log_Info # es) = suspends_between ok es"

section \<open>Moderation\<close>

text \<open>
  \<open>cls(api_key=api_key)\<close> is the instance; \<open>params\<close> is the dictionary sent as the request
  body. \<open>instance.request\<close> and \<open>instance.arequest\<close> belong to \<open>OpenAIObject\<close>, which is not
  among the source files: they are parameters, and every invocation is appended to the
  network log.
\<close>

record moderation =
  api_key :: "string option"

type_synonym params = "string \<rightharpoonup> string"

datatype surface = Request | Arequest

record request_call =
  via :: surface
  sender :: moderation
  meth :: string
  url :: string
  body :: params

definition VALID_MODEL_NAMES :: "string list" where
  "VALID_MODEL_NAMES = [''text-moderation-stable'', ''text-moderation-latest'']"

definition Moderation_get_url :: string where
  "Moderation_get_url = ''/moderations''"

definition Moderation_prepare_create ::
  "string \<Rightarrow> string option \<Rightarrow> string option \<Rightarrow> error + (moderation \<times> params)" where
  "Moderation_prepare_create input model key =
     (if model \<noteq> None \<and> the model \<notin> set VALID_MODEL_NAMES then Inl ValueError
      else
        let inst = \<lparr>api_key = key\<rparr>;
            params = [''input'' \<mapsto> input];
            params = (case model of None \<Rightarrow> params | Some m \<Rightarrow> params(''model'' \<mapsto> m))
        in Inr (inst, params))"

definition Moderation_create ::
  "(moderation \<Rightarrow> string \<Rightarrow> string \<Rightarrow> params \<Rightarrow> error + 'r) \<Rightarrow> string \<Rightarrow> string option \<Rightarrow> string option
    \<Rightarrow> request_call list \<Rightarrow> (error + 'r) \<times> request_call list" where
  "Moderation_create request input model key net =
     (case Moderation_prepare_create input model key of
        Inl e \<Rightarrow> (Inl e, net)
      | Inr (inst, params) \<Rightarrow>
          (request inst ''post'' Moderation_get_url params,
           net @ [\<lparr>via = Request, sender = inst, meth = ''post'', url = Moderation_get_url,
                    body = params\<rparr>]))"

definition Moderation_acreate ::
  "(moderation \<Rightarrow> string \<Rightarrow> string \<Rightarrow> params \<Rightarrow> error + 'r) \<Rightarrow> string \<Rightarrow> string option \<Rightarrow> string option
    \<Rightarrow> request_call list \<Rightarrow> (error + 'r) \<times> request_call list" where
  "Moderation_acreate arequest input model key net =
     (case Moderation_prepare_create input model key of
        Inl e \<Rightarrow> (Inl e, net)
      | Inr (inst, params) \<Rightarrow>
          (arequest inst ''post'' Moderation_get_url params,
           net @ [\<lparr>via = Arequest, sender = inst, meth = ''post'', url = Moderation_get_url,
                    body = params\<rparr>]))"

section \<open>Logger.sync\<close>

text \<open>
  A fine-tune record is a dictionary, here a list of key and value pairs. The listing
  returned by \<open>FineTune.list()\<close> is a dictionary whose values are \<open>None\<close> or a list of
  records. \<open>FineTune.retrieve\<close>, \<open>FineTune.list\<close> and \<open>cls._log_fine_tune\<close> are parameters
  (the last gives the truth value of what it returns); each may raise. The effects of a
  call are collected in order.
\<close>

type_synonym 'v job = "(string \<times> 'v) list"

type_synonym 'v listing = "(string \<times> 'v job list option) list"

datatype 'v sync_event =
    Retrieve string
  | List_Jobs
  | Log_Fine_Tune "'v job" bool
  | Print string

definition truthy :: "string option \<Rightarrow> bool" where
  "truthy x = (x \<noteq> None \<and> x \<noteq> Some [])"

definition pop :: "string \<Rightarrow> 'v job \<Rightarrow> 'v job" where
  "pop k j = filter (\<lambda>kv. fst kv \<noteq> k) j"

definition get :: "'v listing \<Rightarrow> string \<Rightarrow> 'v job list option" where
  "get d k = (case map_of d k of None \<Rightarrow> None | Some v \<Rightarrow> v)"

definition py_slice_from :: "int \<Rightarrow> 'a list \<Rightarrow> 'a list" where
  "py_slice_from s xs =
     (if s < 0 then drop (nat (max 0 (int (length xs) + s))) xs else drop (nat s) xs)"

definition completed :: string where
  "completed = [CHR 0xF0, CHR 0x9F, CHR 0x8E, CHR 0x89] @ '' wandb log completed successfully''"

fun log_each ::
  "('v job \<Rightarrow> bool \<Rightarrow> error + bool) \<Rightarrow> bool \<Rightarrow> 'v job list \<Rightarrow> 'v sync_event list
    \<Rightarrow> (error + bool list) \<times> 'v sync_event list" where
  "log_each log_fine_tune sw [] tr = (Inr [], tr)"
| "log_each log_fine_tune sw (j # js) tr =
     (case log_fine_tune j sw of
        Inl e \<Rightarrow> (Inl e, tr @ [Log_Fine_Tune j sw])
      | Inr b \<Rightarrow>
          (case log_each log_fine_tune sw js (tr @ [Log_Fine_Tune j sw]) of
             (Inl e, tr') \<Rightarrow> (Inl e, tr')
           | (Inr bs, tr') \<Rightarrow> (Inr (b # bs), tr')))"

definition log_jobs ::
  "('v job \<Rightarrow> bool \<Rightarrow> error + bool) \<Rightarrow> bool \<Rightarrow> 'v job list \<Rightarrow> 'v sync_event list
    \<Rightarrow> (error + string option) \<times> 'v sync_event list" where
  "log_jobs log_fine_tune show_warnings fine_tunes tr =
     (case log_each log_fine_tune show_warnings fine_tunes tr of
        (Inl e, tr') \<Rightarrow> (Inl e, tr')
      | (Inr fine_tune_logged, tr') \<Rightarrow>
          (Inr (Some completed),
           if \<not> show_warnings \<and> \<not> list_ex id fine_tune_logged
           then tr' @ [Print ''No new successful fine-tune were found''] else tr'))"

definition Logger_sync ::
  "bool \<Rightarrow> (string \<Rightarrow> error + 'v job) \<Rightarrow> (error + 'v listing) \<Rightarrow> ('v job \<Rightarrow> bool \<Rightarrow> error + bool)
    \<Rightarrow> string option \<Rightarrow> int option \<Rightarrow> (error + string option) \<times> 'v sync_event list" where
  "Logger_sync WANDB_AVAILABLE retrieve list_jobs log_fine_tune ident n_jobs =
     (let show_warnings = \<not> (ident = None \<and> n_jobs = None) in
      if \<not> WANDB_AVAILABLE then (Inr None, [])
      else if truthy ident then
        (case retrieve (the ident) of
           Inl e \<Rightarrow> (Inl e, [Retrieve (the ident)])
         | Inr fine_tune \<Rightarrow>
             log_jobs log_fine_tune show_warnings [pop ''events'' fine_tune] [Retrieve (the ident)])
      else
        (case list_jobs of
           Inl e \<Rightarrow> (Inl e, [List_Jobs])
         | Inr fine_tunes \<Rightarrow>
             if fine_tunes = [] \<or> get fine_tunes ''data'' = None
             then (Inr None, [List_Jobs, Print ''No fine-tune jobs have been retrieved''])
             else
               log_jobs log_fine_tune show_warnings
                 (case n_jobs of
                    None \<Rightarrow> the (get fine_tunes ''data'')
                  | Some n \<Rightarrow> py_slice_from (- n) (the (get fine_tunes ''data'')))
                 [List_Jobs]))"

section \<open>Facts about the retry loop\<close>

lemma world_simps [simp]:
  "calls (dispatch w) = Suc (calls w)" "calls (read_clock w) = calls w" "calls (log_info w) = calls w"
  "reads (dispatch w) = reads w" "reads (read_clock w) = Suc (reads w)" "reads (log_info w) = reads w"
  "trace (dispatch w) = trace w @ [Dispatch]" "trace (read_clock w) = trace w @ [Clock_Read]"
  "trace (log_info w) = trace w @ [Log_Info]"
  by (simp_all add: dispatch_def read_clock_def log_info_def)

lemma world0_simps [simp]:
  "calls world0 = 0" "reads world0 = 0" "trace world0 = []"
  by (simp_all add: world0_def)

lemma deadline_error: "deadline start t = Inl err \<Longrightarrow> err = OverflowError"
  by (cases t) (auto split: double.splits)

lemma acreate_loop_le:
  assumes "acreate_loop disp clock timeout start w = Some y"
  shows "create_loop disp clock timeout start w = Some y"
proof (rule acreate_loop.raw_induct
    [where P = "\<lambda>disp clock timeout start w y. create_loop disp clock timeout start w = Some y",
      OF _ assms], goal_cases)
  case (1 f disp clock timeout start w y)
  show ?case
    using 1(2) by (subst create_loop.simps) (auto split: sum.splits if_splits option.splits intro: 1(1))
qed

lemma create_loop_le:
  assumes "create_loop disp clock timeout start w = Some y"
  shows "acreate_loop disp clock timeout start w = Some y"
proof (rule create_loop.raw_induct
    [where P = "\<lambda>disp clock timeout start w y. acreate_loop disp clock timeout start w = Some y",
      OF _ assms], goal_cases)
  case (1 f disp clock timeout start w y)
  show ?case
    using 1(2) by (subst acreate_loop.simps) (auto split: sum.splits if_splits option.splits intro: 1(1))
qed

lemma acreate_loop_eq: "acreate_loop disp clock timeout start w = create_loop disp clock timeout start w"
proof (cases "create_loop disp clock timeout start w")
  case None
  then show ?thesis using acreate_loop_le [of disp clock timeout start w]
    by (cases "acreate_loop disp clock timeout start w") auto
next
  case (Some y)
  then show ?thesis by (simp add: create_loop_le)
qed

text \<open>
  One unfolding of the loop, by cases: either the call leaves at once (with the result
  and the world it leaves in), or the outcome was \<open>TryAgain\<close> and the loop goes on from \<open>w1\<close>.
\<close>

lemma create_loop_cases:
  assumes eq: "(case disp (calls w) of
        Inr v \<Rightarrow> Some (Inr v, dispatch w)
      | Inl e \<Rightarrow>
          if e = TryAgain then
            (case timeout of
               None \<Rightarrow> f disp clock timeout start (log_info (dispatch w))
             | Some t \<Rightarrow>
                 (case deadline start t of
                    Inl err \<Rightarrow> Some (Inl err, read_clock (dispatch w))
                  | Inr d \<Rightarrow>
                      if fgt (clock (reads (dispatch w))) d
                      then Some (Inl e, read_clock (dispatch w))
                      else f disp clock timeout start (log_info (read_clock (dispatch w)))))
          else Some (Inl e, dispatch w)) = Some y"
  obtains
    (leave) "disp (calls w) = fst y" "fst y \<noteq> Inl TryAgain" "snd y = dispatch w"
  | (overflow) t where "disp (calls w) = Inl TryAgain" "timeout = Some t"
      "deadline start t = Inl OverflowError" "fst y = Inl OverflowError" "snd y = read_clock (dispatch w)"
  | (expired) t d where "disp (calls w) = Inl TryAgain" "timeout = Some t" "deadline start t = Inr d"
      "fgt (clock (reads w)) d" "fst y = Inl TryAgain" "snd y = read_clock (dispatch w)"
  | (retry_None) "disp (calls w) = Inl TryAgain" "timeout = None"
      "f disp clock timeout start (log_info (dispatch w)) = Some y"
  | (retry_Some) t d where "disp (calls w) = Inl TryAgain" "timeout = Some t" "deadline start t = Inr d"
      "\<not> fgt (clock (reads w)) d"
      "f disp clock timeout start (log_info (read_clock (dispatch w))) = Some y"
proof (cases "disp (calls w)")
  case (Inr v)
  with eq have "disp (calls w) = fst y" "fst y \<noteq> Inl TryAgain" "snd y = dispatch w" by auto
  then show thesis by (rule leave)
next
  case (Inl e)
  show thesis
  proof (cases "e = TryAgain")
    case False
    with Inl eq have "disp (calls w) = fst y" "fst y \<noteq> Inl TryAgain" "snd y = dispatch w" by auto
    then show thesis by (rule leave)
  next
    case True
    show thesis
    proof (cases timeout)
      case None
      with Inl True eq show thesis by (intro retry_None) simp_all
    next
      case (Some t)
      show thesis
      proof (cases "deadline start t")
        case (Inl err)
        then have "err = OverflowError" by (rule deadline_error)
        with Inl \<open>disp (calls w) = Inl e\<close> True Some eq show thesis
          by (intro overflow [of t]) auto
      next
        case (Inr d)
        show thesis
        proof (cases "fgt (clock (reads w)) d")
          case True
          with Inr \<open>disp (calls w) = Inl e\<close> \<open>e = TryAgain\<close> Some eq show thesis
            by (intro expired [of t d]) auto
        next
          case False
          with Inr \<open>disp (calls w) = Inl e\<close> \<open>e = TryAgain\<close> Some eq show thesis
            by (intro retry_Some [of t d]) auto
        qed
      qed
    qed
  qed
qed

lemma sound_step:
  assumes e: "disp (calls w) = Inl TryAgain"
    and c: "calls w1 = Suc (calls w)"
    and t: "Sleep \<in> set (trace w1) \<Longrightarrow> Sleep \<in> set (trace w)"
    and ih: "calls w1 < calls (snd y) \<and>
     (\<forall>i. calls w1 \<le> i \<and> i < calls (snd y) - 1 \<longrightarrow> disp i = Inl TryAgain) \<and>
     (fst y = disp (calls (snd y) - 1) \<or>
      fst y = Inl OverflowError \<and> disp (calls (snd y) - 1) = Inl TryAgain \<and>
      (\<exists>t. timeout = Some t \<and> deadline start t = Inl OverflowError)) \<and>
     (fst y = Inl TryAgain \<longrightarrow> timeout \<noteq> None) \<and>
     (Sleep \<notin> set (trace w1) \<longrightarrow> Sleep \<notin> set (trace (snd y)))"
  shows "calls w < calls (snd y) \<and>
     (\<forall>i. calls w \<le> i \<and> i < calls (snd y) - 1 \<longrightarrow> disp i = Inl TryAgain) \<and>
     (fst y = disp (calls (snd y) - 1) \<or>
      fst y = Inl OverflowError \<and> disp (calls (snd y) - 1) = Inl TryAgain \<and>
      (\<exists>t. timeout = Some t \<and> deadline start t = Inl OverflowError)) \<and>
     (fst y = Inl TryAgain \<longrightarrow> timeout \<noteq> None) \<and>
     (Sleep \<notin> set (trace w) \<longrightarrow> Sleep \<notin> set (trace (snd y)))"
proof -
  have 1: "calls w < calls (snd y)" using ih c by simp
  have 2: "disp i = Inl TryAgain" if i: "calls w \<le> i \<and> i < calls (snd y) - 1" for i
  proof (cases "i = calls w")
    case True
    then show ?thesis using e by simp
  next
    case False
    with i c have "calls w1 \<le> i \<and> i < calls (snd y) - 1" by simp
    with ih show ?thesis by blast
  qed
  have 5: "Sleep \<notin> set (trace (snd y))" if "Sleep \<notin> set (trace w)" using ih t that by blast
  from 1 2 5 ih show ?thesis by blast
qed

lemma create_loop_sound:
  assumes "create_loop disp clock timeout start w = Some y"
  shows "calls w < calls (snd y) \<and>
     (\<forall>i. calls w \<le> i \<and> i < calls (snd y) - 1 \<longrightarrow> disp i = Inl TryAgain) \<and>
     (fst y = disp (calls (snd y) - 1) \<or>
      fst y = Inl OverflowError \<and> disp (calls (snd y) - 1) = Inl TryAgain \<and>
      (\<exists>t. timeout = Some t \<and> deadline start t = Inl OverflowError)) \<and>
     (fst y = Inl TryAgain \<longrightarrow> timeout \<noteq> None) \<and>
     (Sleep \<notin> set (trace w) \<longrightarrow> Sleep \<notin> set (trace (snd y)))"
proof (rule create_loop.raw_induct
    [where P = "\<lambda>disp clock timeout start w y. calls w < calls (snd y) \<and>
     (\<forall>i. calls w \<le> i \<and> i < calls (snd y) - 1 \<longrightarrow> disp i = Inl TryAgain) \<and>
     (fst y = disp (calls (snd y) - 1) \<or>
      fst y = Inl OverflowError \<and> disp (calls (snd y) - 1) = Inl TryAgain \<and>
      (\<exists>t. timeout = Some t \<and> deadline start t = Inl OverflowError)) \<and>
     (fst y = Inl TryAgain \<longrightarrow> timeout \<noteq> None) \<and>
     (Sleep \<notin> set (trace w) \<longrightarrow> Sleep \<notin> set (trace (snd y)))",
      OF _ assms], goal_cases)
  case (1 f disp clock timeout start w y)
  from 1(2) show ?case
  proof (cases rule: create_loop_cases)
    case leave
    then show ?thesis by auto
  next
    case (overflow t)
    then show ?thesis by auto
  next
    case (expired t d)
    then show ?thesis by auto
  next
    case retry_None
    show ?thesis
      by (rule sound_step [OF retry_None(1) _ _ 1(1) [OF retry_None(3)]]) simp_all
  next
    case (retry_Some t d)
    show ?thesis
      by (rule sound_step [OF retry_Some(1) _ _ 1(1) [OF retry_Some(5)]]) simp_all
  qed
qed

lemma create_loop_deadline:
  assumes "create_loop disp clock timeout start w = Some y"
  shows "timeout = Some t \<longrightarrow> deadline start t = Inr d \<longrightarrow> fst y = Inl TryAgain \<longrightarrow>
     reads w < reads (snd y) \<and> reads (snd y) - reads w = calls (snd y) - calls w \<and>
     fgt (clock (reads (snd y) - 1)) d \<and>
     (\<forall>j. reads w \<le> j \<and> j < reads (snd y) - 1 \<longrightarrow> \<not> fgt (clock j) d)"
proof (rule create_loop.raw_induct
    [where P = "\<lambda>disp clock timeout start w y.
     timeout = Some t \<longrightarrow> deadline start t = Inr d \<longrightarrow> fst y = Inl TryAgain \<longrightarrow>
     reads w < reads (snd y) \<and> reads (snd y) - reads w = calls (snd y) - calls w \<and>
     fgt (clock (reads (snd y) - 1)) d \<and>
     (\<forall>j. reads w \<le> j \<and> j < reads (snd y) - 1 \<longrightarrow> \<not> fgt (clock j) d)",
      OF _ assms], goal_cases)
  case (1 f disp clock timeout start w y)
  show ?case
  proof (intro impI)
    assume tm: "timeout = Some t" and dl: "deadline start t = Inr d" and res: "fst y = Inl TryAgain"
    from 1(2) show "reads w < reads (snd y) \<and> reads (snd y) - reads w = calls (snd y) - calls w \<and>
     fgt (clock (reads (snd y) - 1)) d \<and>
     (\<forall>j. reads w \<le> j \<and> j < reads (snd y) - 1 \<longrightarrow> \<not> fgt (clock j) d)"
    proof (cases rule: create_loop_cases)
      case leave
      with res show ?thesis by simp
    next
      case (overflow t')
      with res show ?thesis by simp
    next
      case (expired t' d')
      with tm dl show ?thesis by auto
    next
      case retry_None
      with tm show ?thesis by simp
    next
      case (retry_Some t' d')
      from 1(1) [OF retry_Some(5)] tm dl res
      have ih1: "Suc (reads w) < reads (snd y)"
        and ih2: "reads (snd y) - Suc (reads w) = calls (snd y) - Suc (calls w)"
        and ih3: "fgt (clock (reads (snd y) - 1)) d"
        and ih4: "\<forall>j. Suc (reads w) \<le> j \<and> j < reads (snd y) - 1 \<longrightarrow> \<not> fgt (clock j) d"
        by simp_all
      from retry_Some(2,3,4) tm dl have now: "\<not> fgt (clock (reads w)) d" by simp
      have "\<not> fgt (clock j) d" if "reads w \<le> j \<and> j < reads (snd y) - 1" for j
      proof (cases "j = reads w")
        case True
        with now show ?thesis by simp
      next
        case False
        with that have "Suc (reads w) \<le> j \<and> j < reads (snd y) - 1" by simp
        with ih4 show ?thesis by blast
      qed
      moreover have "reads w < reads (snd y)" using ih1 by simp
      moreover have "reads (snd y) - reads w = calls (snd y) - calls w" using ih1 ih2 by arith
      ultimately show ?thesis using ih3 by blast
    qed
  qed
qed

lemma warm_run_None:
  "(\<forall>i<n. disp (calls w + i) = Inl TryAgain) \<Longrightarrow> disp (calls w + n) = r \<Longrightarrow> r \<noteq> Inl TryAgain \<Longrightarrow>
   \<exists>w'. create_loop disp clock None start w = Some (r, w') \<and> calls w' = Suc (calls w + n) \<and> reads w' = reads w"
proof (induction n arbitrary: w)
  case 0
  then show ?case
    by (subst create_loop.simps) (auto split: sum.splits)
next
  case (Suc n)
  let ?w1 = "log_info (dispatch w)"
  from Suc.prems(1) have e: "disp (calls w) = Inl TryAgain" by (metis add.right_neutral zero_less_Suc)
  have "\<forall>i<n. disp (calls ?w1 + i) = Inl TryAgain" using Suc.prems(1) by (auto simp: less_Suc_eq_0_disj)
  moreover have "disp (calls ?w1 + n) = r" using Suc.prems(2) by simp
  ultimately obtain w' where "create_loop disp clock None start ?w1 = Some (r, w')"
    "calls w' = Suc (calls ?w1 + n)" "reads w' = reads ?w1"
    using Suc.IH [of ?w1] Suc.prems(3) by blast
  then show ?case using e
    by (subst create_loop.simps) simp
qed

lemma always_run_Some:
  "(\<forall>i. disp i = Inl TryAgain) \<Longrightarrow> deadline start t = Inr d \<Longrightarrow>
   (\<forall>m<n. \<not> fgt (clock (reads w + m)) d) \<Longrightarrow> fgt (clock (reads w + n)) d \<Longrightarrow>
   \<exists>w'. create_loop disp clock (Some t) start w = Some (Inl TryAgain, w') \<and> calls w' = Suc (calls w + n)"
proof (induction n arbitrary: w)
  case 0
  then show ?case
    by (subst create_loop.simps) (auto split: sum.splits)
next
  case (Suc n)
  let ?w1 = "log_info (read_clock (dispatch w))"
  from Suc.prems(3) have c: "\<not> fgt (clock (reads w)) d" by (metis add.right_neutral zero_less_Suc)
  have "\<forall>m<n. \<not> fgt (clock (reads ?w1 + m)) d" using Suc.prems(3) by (auto simp: less_Suc_eq_0_disj)
  moreover have "fgt (clock (reads ?w1 + n)) d" using Suc.prems(4) by simp
  ultimately obtain w' where "create_loop disp clock (Some t) start ?w1 = Some (Inl TryAgain, w')"
    "calls w' = Suc (calls ?w1 + n)"
    using Suc.IH [of ?w1] Suc.prems(1,2) by blast
  then show ?case using c Suc.prems(1,2)
    by (subst create_loop.simps) simp
qed

lemma create_loop_trace:
  assumes "create_loop disp clock timeout start w = Some y"
  shows "\<exists>es. trace (snd y) = trace w @ Dispatch # es"
proof (rule create_loop.raw_induct
    [where P = "\<lambda>disp clock timeout start w y. \<exists>es. trace (snd y) = trace w @ Dispatch # es",
      OF _ assms], goal_cases)
  case (1 f disp clock timeout start w y)
  have step: "\<exists>es. trace (snd y) = trace w @ Dispatch # es"
    if "f disp clock timeout start w1 = Some y" "trace w1 = trace w @ Dispatch # es1" for w1 es1
  proof -
    from 1(1) [OF that(1)] obtain es where "trace (snd y) = trace w1 @ Dispatch # es" by blast
    with that(2) show ?thesis by simp
  qed
  from 1(2) show ?case
  proof (cases rule: create_loop_cases)
    case leave
    then show ?thesis by simp
  next
    case (overflow t)
    then show ?thesis by simp
  next
    case (expired t d)
    then show ?thesis by simp
  next
    case retry_None
    from retry_None(3) show ?thesis by (rule step) simp
  next
    case (retry_Some t d)
    from retry_Some(5) show ?thesis by (rule step) simp
  qed
qed

section \<open>ChatCompletion.create: retry, deadline and propagation\<close>

text \<open>
  C1. For every \<open>n\<close>: if the dispatcher raises \<open>TryAgain\<close> on its first \<open>n\<close> invocations and
  returns \<open>v\<close> on the next one, \<open>ChatCompletion.create\<close> with \<open>timeout=None\<close> returns \<open>v\<close>, and
  the dispatcher has been invoked exactly \<open>n + 1\<close> times.
\<close>

theorem create_returns_after_warmup:
  assumes "\<forall>i<n. disp i = Inl TryAgain" and "disp n = Inr v"
  shows "\<exists>w. ChatCompletion_create disp clock None = Some (Inr v, w) \<and> calls w = Suc n"
proof -
  have "\<forall>i<n. disp (calls (read_clock world0) + i) = Inl TryAgain" using assms(1) by simp
  moreover have "disp (calls (read_clock world0) + n) = Inr v" using assms(2) by simp
  ultimately obtain w' where
    "create_loop disp clock None (clock (reads world0)) (read_clock world0) = Some (Inr v, w')"
    "calls w' = Suc (calls (read_clock world0) + n)"
    using warm_run_None [of n disp "read_clock world0" "Inr v" clock "clock (reads world0)"] by blast
  then show ?thesis by (auto simp: ChatCompletion_create_def)
qed

theorem create_returns_after_warmup_witness:
  "scripted [Inl TryAgain, Inl TryAgain] (Inr (42::nat)) 0 = Inl TryAgain \<and>
   scripted [Inl TryAgain, Inl TryAgain] (Inr (42::nat)) 1 = Inl TryAgain \<and>
   scripted [Inl TryAgain, Inl TryAgain] (Inr (42::nat)) 2 = Inr 42 \<and>
   (\<exists>w. ChatCompletion_create (scripted [Inl TryAgain, Inl TryAgain] (Inr (42::nat))) seconds None
          = Some (Inr 42, w) \<and> calls w = Suc 2)"
proof -
  have h1: "\<forall>i<2. scripted [Inl TryAgain, Inl TryAgain] (Inr (42::nat)) i = Inl TryAgain"
    by (simp add: scripted_def nth_Cons' )
  have h2: "scripted [Inl TryAgain, Inl TryAgain] (Inr (42::nat)) 2 = Inr 42"
    by (simp add: scripted_def)
  have "\<exists>w. ChatCompletion_create (scripted [Inl TryAgain, Inl TryAgain] (Inr (42::nat))) seconds None
          = Some (Inr 42, w) \<and> calls w = Suc 2"
    by (rule create_returns_after_warmup [OF h1 h2])
  moreover have "scripted [Inl TryAgain, Inl TryAgain] (Inr (42::nat)) 0 = Inl TryAgain"
    "scripted [Inl TryAgain, Inl TryAgain] (Inr (42::nat)) 1 = Inl TryAgain"
    by (simp_all add: scripted_def)
  ultimately show ?thesis using h2 by blast
qed

text \<open>
  C3. An error other than \<open>TryAgain\<close> raised by the first dispatcher invocation is propagated
  at once, whatever the timeout: the dispatcher has been invoked exactly once, the clock has
  been read only for \<open>start\<close>, and nothing is logged.
\<close>

theorem create_other_error_propagates:
  assumes "disp 0 = Inl e" and "e \<noteq> TryAgain"
  shows "ChatCompletion_create disp clock timeout =
           Some (Inl e, \<lparr>calls = 1, reads = 1, trace = [Clock_Read, Dispatch]\<rparr>)"
  unfolding ChatCompletion_create_def
  by (subst create_loop.simps)
     (simp add: assms world0_def read_clock_def dispatch_def)

theorem create_other_error_propagates_witness:
  "scripted [] (Inl AuthenticationError :: error + nat) 0 = Inl AuthenticationError \<and>
   AuthenticationError \<noteq> TryAgain \<and>
   ChatCompletion_create (scripted [] (Inl AuthenticationError :: error + nat)) seconds (Some (PyFloat (Finite 5))) =
      Some (Inl AuthenticationError, \<lparr>calls = 1, reads = 1, trace = [Clock_Read, Dispatch]\<rparr>)"
proof -
  have h1: "scripted [] (Inl AuthenticationError :: error + nat) 0 = Inl AuthenticationError"
    by (simp add: scripted_def)
  have h2: "AuthenticationError \<noteq> TryAgain" by simp
  have "ChatCompletion_create (scripted [] (Inl AuthenticationError :: error + nat)) seconds (Some (PyFloat (Finite 5))) =
      Some (Inl AuthenticationError, \<lparr>calls = 1, reads = 1, trace = [Clock_Read, Dispatch]\<rparr>)"
    using create_other_error_propagates
      [of "scripted [] (Inl AuthenticationError :: error + nat)" AuthenticationError seconds "Some (PyFloat (Finite 5))"] h1
    by simp
  with h1 h2 show ?thesis by blast
qed

text \<open>
  C5. Without a timeout the wrapper never propagates \<open>TryAgain\<close>, and it returns after exactly
  \<open>n + 1\<close> dispatcher invocations with result \<open>r\<close> if and only if the first \<open>n\<close> invocations raise
  \<open>TryAgain\<close> and invocation \<open>n + 1\<close> yields \<open>r\<close>, a value or a different error: every \<open>TryAgain\<close>
  is followed by another invocation, for any number of them; a dispatcher that raises
  \<open>TryAgain\<close> forever makes the call run forever.
\<close>

theorem create_no_timeout_never_gives_up:
  "ChatCompletion_create disp clock None \<noteq> Some (Inl TryAgain, w) \<and>
   ((\<exists>w'. ChatCompletion_create disp clock None = Some (r, w') \<and> calls w' = Suc n) \<longleftrightarrow>
    ((\<forall>i<n. disp i = Inl TryAgain) \<and> disp n = r \<and> r \<noteq> Inl TryAgain))"
proof -
  have never: "ChatCompletion_create disp clock None \<noteq> Some (Inl TryAgain, w)"
    using create_loop_sound [of disp clock None "clock (reads world0)" "read_clock world0" "(Inl TryAgain, w)"]
    by (auto simp: ChatCompletion_create_def)
  have "(\<exists>w'. ChatCompletion_create disp clock None = Some (r, w') \<and> calls w' = Suc n) \<longleftrightarrow>
    ((\<forall>i<n. disp i = Inl TryAgain) \<and> disp n = r \<and> r \<noteq> Inl TryAgain)"
  proof
    assume "\<exists>w'. ChatCompletion_create disp clock None = Some (r, w') \<and> calls w' = Suc n"
    then obtain w' where w': "create_loop disp clock None (clock (reads world0)) (read_clock world0) = Some (r, w')"
      "calls w' = Suc n" by (auto simp: ChatCompletion_create_def)
    from create_loop_sound [OF w'(1)] w'(2)
    show "(\<forall>i<n. disp i = Inl TryAgain) \<and> disp n = r \<and> r \<noteq> Inl TryAgain" by auto
  next
    assume a: "(\<forall>i<n. disp i = Inl TryAgain) \<and> disp n = r \<and> r \<noteq> Inl TryAgain"
    then have "\<forall>i<n. disp (calls (read_clock world0) + i) = Inl TryAgain"
      "disp (calls (read_clock world0) + n) = r" "r \<noteq> Inl TryAgain" by simp_all
    from warm_run_None [OF this, of clock "clock (reads world0)"]
    show "\<exists>w'. ChatCompletion_create disp clock None = Some (r, w') \<and> calls w' = Suc n"
      by (auto simp: ChatCompletion_create_def)
  qed
  with never show ?thesis by blast
qed

theorem create_no_timeout_never_gives_up_witness:
  "\<exists>w'. ChatCompletion_create (scripted [Inl TryAgain, Inl TryAgain, Inl TryAgain] (Inl RateLimitError :: error + nat))
      seconds None = Some (Inl RateLimitError, w') \<and> calls w' = Suc 3"
proof -
  have "\<forall>i<3. scripted [Inl TryAgain, Inl TryAgain, Inl TryAgain] (Inl RateLimitError :: error + nat) i = Inl TryAgain"
    by (simp add: scripted_def nth_Cons')
  moreover have "scripted [Inl TryAgain, Inl TryAgain, Inl TryAgain] (Inl RateLimitError :: error + nat) 3 = Inl RateLimitError"
    by (simp add: scripted_def)
  ultimately show ?thesis
    using create_no_timeout_never_gives_up
      [of "scripted [Inl TryAgain, Inl TryAgain, Inl TryAgain] (Inl RateLimitError :: error + nat)" seconds
          undefined "Inl RateLimitError" 3]
    by simp
qed

text \<open>
  C8. For every timeout, also zero, negative or absent, the dispatcher is invoked before the
  deadline is looked at: a first outcome other than \<open>TryAgain\<close> is the result of the call, with one
  invocation and no clock reading besides \<open>start\<close>; and every call that returns has invoked the
  dispatcher at least once, its first two effects being the reading of \<open>start\<close> and an invocation.
\<close>

theorem create_first_attempt_unconditional:
  "(disp 0 \<noteq> Inl TryAgain \<longrightarrow>
      ChatCompletion_create disp clock timeout =
        Some (disp 0, \<lparr>calls = 1, reads = 1, trace = [Clock_Read, Dispatch]\<rparr>)) \<and>
   (ChatCompletion_create disp clock timeout = Some (r, w) \<longrightarrow>
      1 \<le> calls w \<and> take 2 (trace w) = [Clock_Read, Dispatch])"
proof (intro conjI impI)
  assume "disp 0 \<noteq> Inl TryAgain"
  then show "ChatCompletion_create disp clock timeout =
        Some (disp 0, \<lparr>calls = 1, reads = 1, trace = [Clock_Read, Dispatch]\<rparr>)"
    unfolding ChatCompletion_create_def
    by (subst create_loop.simps)
       (simp add: world0_def read_clock_def dispatch_def split: sum.splits)
next
  assume "ChatCompletion_create disp clock timeout = Some (r, w)"
  then have w: "create_loop disp clock timeout (clock (reads world0)) (read_clock world0) = Some (r, w)"
    by (simp add: ChatCompletion_create_def)
  from create_loop_sound [OF w] show "1 \<le> calls w" by simp
  from create_loop_trace [OF w] show "take 2 (trace w) = [Clock_Read, Dispatch]" by auto
qed

theorem create_first_attempt_unconditional_witness:
  "ChatCompletion_create (scripted [] (Inr (7::nat))) seconds (Some (PyFloat (Finite (- 5)))) =
     Some (Inr 7, \<lparr>calls = 1, reads = 1, trace = [Clock_Read, Dispatch]\<rparr>) \<and>
   ChatCompletion_create (scripted [Inl TryAgain] (Inr (7::nat))) seconds (Some (PyInt 0)) =
     Some (Inl TryAgain, \<lparr>calls = 1, reads = 2, trace = [Clock_Read, Dispatch, Clock_Read]\<rparr>) \<and>
   1 \<le> calls \<lparr>calls = 1, reads = 2, trace = [Clock_Read, Dispatch, Clock_Read]\<rparr> \<and>
   take 2 (trace \<lparr>calls = 1, reads = 2, trace = [Clock_Read, Dispatch, Clock_Read]\<rparr>) = [Clock_Read, Dispatch]"
proof -
  have a: "ChatCompletion_create (scripted [] (Inr (7::nat))) seconds (Some (PyFloat (Finite (- 5)))) =
     Some (Inr 7, \<lparr>calls = 1, reads = 1, trace = [Clock_Read, Dispatch]\<rparr>)"
    using create_first_attempt_unconditional [of "scripted [] (Inr (7::nat))" seconds "Some (PyFloat (Finite (- 5)))"]
    by (simp add: scripted_def)
  have b: "ChatCompletion_create (scripted [Inl TryAgain] (Inr (7::nat))) seconds (Some (PyInt 0)) =
     Some (Inl TryAgain, \<lparr>calls = 1, reads = 2, trace = [Clock_Read, Dispatch, Clock_Read]\<rparr>)"
    by (simp add: ChatCompletion_create_def create_loop.simps scripted_def world0_def
        read_clock_def dispatch_def to_double_def seconds_def)
  from b create_first_attempt_unconditional
    [of "scripted [Inl TryAgain] (Inr (7::nat))" seconds "Some (PyInt 0)" "Inl TryAgain"
      "\<lparr>calls = 1, reads = 2, trace = [Clock_Read, Dispatch, Clock_Read]\<rparr>"]
  have "1 \<le> calls \<lparr>calls = 1, reads = 2, trace = [Clock_Read, Dispatch, Clock_Read]\<rparr> \<and>
   take 2 (trace \<lparr>calls = 1, reads = 2, trace = [Clock_Read, Dispatch, Clock_Read]\<rparr>) = [Clock_Read, Dispatch]"
    by blast
  with a b show ?thesis by blast
qed

section \<open>Suspension between attempts\<close>

text \<open>
  C6, as stated, fails: with one \<open>TryAgain\<close> followed by a success, both wrappers invoke the
  dispatcher twice with only a \<open>util.log_info\<close> call in between, and no suspension step.
\<close>

theorem retry_spins_counterexample:
  "ChatCompletion_create (scripted [Inl TryAgain] (Inr (42::nat))) seconds None =
     Some (Inr 42, \<lparr>calls = 2, reads = 1, trace = [Clock_Read, Dispatch, Log_Info, Dispatch]\<rparr>) \<and>
   ChatCompletion_acreate (scripted [Inl TryAgain] (Inr (42::nat))) seconds None =
     Some (Inr 42, \<lparr>calls = 2, reads = 1, trace = [Clock_Read, Dispatch, Log_Info, Dispatch]\<rparr>) \<and>
   \<not> suspends_between True [Clock_Read, Dispatch, Log_Info, Dispatch]"
  by (simp add: ChatCompletion_create_def ChatCompletion_acreate_def create_loop.simps
      acreate_loop.simps scripted_def world0_def read_clock_def dispatch_def log_info_def)

text \<open>
  C6, amended. No run of \<open>ChatCompletion.create\<close> or \<open>ChatCompletion.acreate\<close> contains a
  suspension step of the wrapper's own: after a \<open>TryAgain\<close> the loop reads the clock (when a timeout
  is given), logs, and invokes the dispatcher again at once. Blocking or yielding happens only
  inside the dispatcher invocation.
\<close>

theorem retry_never_suspends:
  "(ChatCompletion_create disp clock timeout = Some (r, w) \<longrightarrow> Sleep \<notin> set (trace w)) \<and>
   (ChatCompletion_acreate disp clock timeout = Some (r, w) \<longrightarrow> Sleep \<notin> set (trace w))"
proof -
  have "Sleep \<notin> set (trace w)"
    if "create_loop disp clock timeout (clock (reads world0)) (read_clock world0) = Some (r, w)"
    using create_loop_sound [OF that] by simp
  then show ?thesis
    by (simp add: ChatCompletion_create_def ChatCompletion_acreate_def acreate_loop_eq)
qed

theorem retry_never_suspends_witness:
  "Sleep \<notin> set (trace \<lparr>calls = 2, reads = 1, trace = [Clock_Read, Dispatch, Log_Info, Dispatch]\<rparr>)
   \<and> ChatCompletion_create (scripted [Inl TryAgain] (Inr (42::nat))) seconds None =
     Some (Inr 42, \<lparr>calls = 2, reads = 1, trace = [Clock_Read, Dispatch, Log_Info, Dispatch]\<rparr>)"
proof -
  have b: "ChatCompletion_create (scripted [Inl TryAgain] (Inr (42::nat))) seconds None =
     Some (Inr 42, \<lparr>calls = 2, reads = 1, trace = [Clock_Read, Dispatch, Log_Info, Dispatch]\<rparr>)"
    by (simp add: ChatCompletion_create_def create_loop.simps scripted_def world0_def
        read_clock_def dispatch_def log_info_def)
  from b retry_never_suspends [of "scripted [Inl TryAgain] (Inr (42::nat))" seconds None "Inr 42"
      "\<lparr>calls = 2, reads = 1, trace = [Clock_Read, Dispatch, Log_Info, Dispatch]\<rparr>"]
  have "Sleep \<notin> set (trace \<lparr>calls = 2, reads = 1, trace = [Clock_Read, Dispatch, Log_Info, Dispatch]\<rparr>)"
    by blast
  with b show ?thesis by blast
qed

section \<open>Synchronous and asynchronous paths\<close>

text \<open>
  C7. Given the same dispatcher outcomes and clock readings, \<open>ChatCompletion.acreate\<close> and
  \<open>ChatCompletion.create\<close> agree: same result, same number of invocations, same effects, and both
  run forever on the same inputs. \<open>Moderation.acreate\<close> and \<open>Moderation.create\<close> build the same
  method, url and params from the same inputs, and give the same answer over the same transport.
\<close>

theorem sync_async_equivalent:
  "ChatCompletion_acreate disp clock timeout = ChatCompletion_create disp clock timeout \<and>
   fst (Moderation_acreate transport input model key net) = fst (Moderation_create transport input model key net) \<and>
   map (\<lambda>c. (meth c, url c, body c)) (snd (Moderation_acreate arequest input model key net)) =
   map (\<lambda>c. (meth c, url c, body c)) (snd (Moderation_create request input model key net))"
  by (simp add: ChatCompletion_create_def ChatCompletion_acreate_def acreate_loop_eq
      Moderation_create_def Moderation_acreate_def split: sum.splits prod.splits)

section \<open>The deadline of the retry loop\<close>

text \<open>
  The floats of the example below: the literals \<open>0.1\<close>, \<open>0.2\<close> and \<open>0.30000000000000004\<close>, the
  rounded sum \<open>0.1 + 0.2\<close>, and the rounded difference \<open>0.30000000000000004 - 0.1\<close>.
\<close>

lemma tenth: "to_double (1 / 10) = Finite (3602879701896397 / 36028797018963968)"
  by code_simp

lemma fifth: "to_double (2 / 10) = Finite (3602879701896397 / 18014398509481984)"
  by code_simp

lemma reading:
  "to_double (30000000000000004 / 10 ^ 17) = Finite (1351079888211149 / 4503599627370496)"
  by code_simp

lemma rounded_sum:
  "fadd (Finite (3602879701896397 / 36028797018963968))
        (Finite (3602879701896397 / 18014398509481984)) =
   Finite (1351079888211149 / 4503599627370496)"
  by code_simp

lemma float_difference:
  "fadd (Finite (1351079888211149 / 4503599627370496))
        (Finite (- (3602879701896397 / 36028797018963968))) =
   Finite (7205759403792795 / 36028797018963968)"
  by code_simp

text \<open>
  C2, as stated, fails: the loop does not compare the elapsed time with \<open>T\<close>, it compares the
  reading with \<open>start + T\<close>, and that sum is rounded to a float. With \<open>start = 0.1\<close>,
  \<open>T = 0.2\<close> and the reading \<open>0.30000000000000004\<close> after the first \<open>TryAgain\<close>, the elapsed time
  exceeds \<open>T\<close> (in float arithmetic and exactly), but the rounded sum equals the reading: the
  call retries, and propagates \<open>TryAgain\<close> only after the second invocation.
\<close>

theorem deadline_rounding_counterexample:
  "ChatCompletion_create (scripted [] (Inl TryAgain :: error + nat))
      (scripted [to_double (1 / 10), to_double (30000000000000004 / 10 ^ 17)] (Finite 1))
      (Some (PyFloat (to_double (2 / 10)))) =
     Some (Inl TryAgain,
       \<lparr>calls = 2, reads = 3,
          trace = [Clock_Read, Dispatch, Clock_Read, Log_Info, Dispatch, Clock_Read]\<rparr>) \<and>
   fgt (fsub (to_double (30000000000000004 / 10 ^ 17)) (to_double (1 / 10))) (to_double (2 / 10)) \<and>
   to_double (1 / 10) = Finite (3602879701896397 / 36028797018963968) \<and>
   to_double (2 / 10) = Finite (3602879701896397 / 18014398509481984) \<and>
   to_double (30000000000000004 / 10 ^ 17) = Finite (1351079888211149 / 4503599627370496) \<and>
   (3602879701896397 / 18014398509481984 :: rat) <
     1351079888211149 / 4503599627370496 - 3602879701896397 / 36028797018963968"
proof -
  have run: "ChatCompletion_create (scripted [] (Inl TryAgain :: error + nat))
      (scripted [to_double (1 / 10), to_double (30000000000000004 / 10 ^ 17)] (Finite 1))
      (Some (PyFloat (to_double (2 / 10)))) =
     Some (Inl TryAgain,
       \<lparr>calls = 2, reads = 3,
          trace = [Clock_Read, Dispatch, Clock_Read, Log_Info, Dispatch, Clock_Read]\<rparr>)"
    unfolding ChatCompletion_create_def tenth fifth reading
    by (simp add: create_loop.simps scripted_def world0_def read_clock_def dispatch_def
        log_info_def rounded_sum del: fadd.simps)
  have "fgt (fsub (to_double (30000000000000004 / 10 ^ 17)) (to_double (1 / 10))) (to_double (2 / 10))"
    unfolding tenth fifth reading
    by (simp add: fsub_def float_difference del: fadd.simps)
  moreover have "(3602879701896397 / 18014398509481984 :: rat) <
     1351079888211149 / 4503599627370496 - 3602879701896397 / 36028797018963968"
    by simp
  ultimately show ?thesis using run tenth fifth reading by blast
qed

text \<open>
  C2, amended. With a dispatcher that always raises \<open>TryAgain\<close> and a timeout \<open>T\<close> for which
  \<open>start + T\<close> is a float \<open>d\<close> (every float \<open>T\<close>, and every \<open>int\<close> within the float range), the call
  propagates \<open>TryAgain\<close> after \<open>n\<close> invocations exactly when the clock reading taken after the
  \<open>n\<close>-th \<open>TryAgain\<close> is the first one greater than \<open>d\<close>; while no reading is greater than \<open>d\<close>
  nothing is propagated.
\<close>

theorem create_timeout_first_exceeds:
  assumes "\<forall>i. disp i = Inl TryAgain" and "deadline (clock 0) T = Inr d"
  shows "(\<exists>w. ChatCompletion_create disp clock (Some T) = Some (r, w) \<and> calls w = n) \<longleftrightarrow>
         (r = Inl TryAgain \<and> 1 \<le> n \<and> fgt (clock n) d \<and>
          (\<forall>k. 1 \<le> k \<and> k < n \<longrightarrow> \<not> fgt (clock k) d))"
proof
  assume "\<exists>w. ChatCompletion_create disp clock (Some T) = Some (r, w) \<and> calls w = n"
  then obtain w where w: "create_loop disp clock (Some T) (clock 0) (read_clock world0) = Some (r, w)"
    and n: "calls w = n" by (auto simp: ChatCompletion_create_def)
  from create_loop_sound [OF w] assms n have r: "r = Inl TryAgain" and n1: "1 \<le> n" by auto
  from create_loop_deadline [OF w, of T d] r assms(2)
  have d: "1 < reads w" "reads w - 1 = calls w" "fgt (clock (reads w - 1)) d"
    "\<forall>j. 1 \<le> j \<and> j < reads w - 1 \<longrightarrow> \<not> fgt (clock j) d" by auto
  from d(2,3) n have "fgt (clock n) d" by simp
  moreover have "\<forall>k. 1 \<le> k \<and> k < n \<longrightarrow> \<not> fgt (clock k) d"
    using d(2,4) n by simp
  ultimately show "r = Inl TryAgain \<and> 1 \<le> n \<and> fgt (clock n) d \<and>
          (\<forall>k. 1 \<le> k \<and> k < n \<longrightarrow> \<not> fgt (clock k) d)" using r n1 by blast
next
  assume a: "r = Inl TryAgain \<and> 1 \<le> n \<and> fgt (clock n) d \<and>
          (\<forall>k. 1 \<le> k \<and> k < n \<longrightarrow> \<not> fgt (clock k) d)"
  then obtain m where m: "n = Suc m" by (cases n) auto
  have "\<forall>j<m. \<not> fgt (clock (reads (read_clock world0) + j)) d"
    using a m by auto
  moreover have "fgt (clock (reads (read_clock world0) + m)) d"
    using a m by simp
  ultimately obtain w' where "create_loop disp clock (Some T) (clock 0) (read_clock world0) = Some (Inl TryAgain, w')"
    "calls w' = Suc (calls (read_clock world0) + m)"
    using always_run_Some [where disp = disp and start = "clock 0" and t = T and d = d and n = m
        and clock = clock and w = "read_clock world0"] assms
    by blast
  then show "\<exists>w. ChatCompletion_create disp clock (Some T) = Some (r, w) \<and> calls w = n"
    using a m by (auto simp: ChatCompletion_create_def)
qed

theorem create_timeout_first_exceeds_witness:
  "(\<forall>i. scripted [] (Inl TryAgain :: error + nat) i = Inl TryAgain) \<and>
   deadline (seconds 0) (PyFloat (Finite 2)) = Inr (Finite 2) \<and>
   (\<exists>w. ChatCompletion_create (scripted [] (Inl TryAgain :: error + nat)) seconds
          (Some (PyFloat (Finite 2))) = Some (Inl TryAgain, w) \<and> calls w = 3)"
proof -
  have h: "\<forall>i. scripted [] (Inl TryAgain :: error + nat) i = Inl TryAgain"
    by (simp add: scripted_def)
  have d: "deadline (seconds 0) (PyFloat (Finite 2)) = Inr (Finite 2)"
    by code_simp
  have "\<forall>k. 1 \<le> k \<and> k < (3::nat) \<longrightarrow> \<not> fgt (seconds k) (Finite 2)"
    by (auto simp: seconds_def)
  moreover have "fgt (seconds 3) (Finite 2)" by (simp add: seconds_def)
  ultimately have "\<exists>w. ChatCompletion_create (scripted [] (Inl TryAgain :: error + nat)) seconds
          (Some (PyFloat (Finite 2))) = Some (Inl TryAgain, w) \<and> calls w = 3"
    using create_timeout_first_exceeds
      [where disp = "scripted [] (Inl TryAgain :: error + nat)" and clock = seconds
        and T = "PyFloat (Finite 2)" and d = "Finite 2" and r = "Inl TryAgain" and n = 3] h d
    by simp
  with h d show ?thesis by blast
qed

section \<open>Moderation: validation and request\<close>

text \<open>
  C4. A model name outside \<open>text-moderation-stable\<close> and \<open>text-moderation-latest\<close> makes
  \<open>Moderation.create\<close> raise locally (the exception is Python's \<open>ValueError\<close>) with the network log
  unchanged: no request is made. With \<open>model=None\<close> or one of the two names the validation does
  not raise, and exactly one request is made.
\<close>

theorem moderation_rejects_unknown_model:
  "(m \<noteq> ''text-moderation-stable'' \<and> m \<noteq> ''text-moderation-latest'' \<longrightarrow>
      Moderation_create request input (Some m) key net = (Inl ValueError, net)) \<and>
   (model = None \<or> model = Some ''text-moderation-stable'' \<or> model = Some ''text-moderation-latest'' \<longrightarrow>
      (\<exists>inst params.
         Moderation_prepare_create input model key = Inr (inst, params) \<and>
         Moderation_create request input model key net =
           (request inst ''post'' ''/moderations'' params,
            net @ [\<lparr>via = Request, sender = inst, meth = ''post'', url = ''/moderations'',
                     body = params\<rparr>])))"
  by (auto simp: Moderation_create_def Moderation_prepare_create_def VALID_MODEL_NAMES_def
      Moderation_get_url_def)

theorem moderation_rejects_unknown_model_witness:
  "Moderation_create (\<lambda>i m u p. Inr (0::nat)) ''some text'' (Some ''not-a-real-model'') None [] =
     (Inl ValueError, []) \<and>
   (\<exists>inst params.
      Moderation_prepare_create ''some text'' None None = Inr (inst, params) \<and>
      Moderation_create (\<lambda>i m u p. Inr (0::nat)) ''some text'' None None [] =
        (Inr 0, [\<lparr>via = Request, sender = inst, meth = ''post'', url = ''/moderations'',
                   body = params\<rparr>]))"
  using moderation_rejects_unknown_model
    [of "''not-a-real-model''" "\<lambda>i m u p. Inr (0::nat)" "''some text''" None "[]" None]
  by simp

text \<open>
  C9. With \<open>model=None\<close>, \<open>Moderation.create\<close> and \<open>Moderation.acreate\<close> send the body
  \<open>{"input": input}\<close>, which has no \<open>"model"\<close> key; with a valid model \<open>m\<close> they send
  \<open>{"input": input, "model": m}\<close>. The method is \<open>post\<close> and the target \<open>/moderations\<close> in all cases.
\<close>

theorem moderation_request_body:
  "snd (Moderation_create request input None key net) =
     net @ [\<lparr>via = Request, sender = \<lparr>api_key = key\<rparr>, meth = ''post'', url = ''/moderations'',
              body = [''input'' \<mapsto> input]\<rparr>] \<and>
   snd (Moderation_acreate arequest input None key net) =
     net @ [\<lparr>via = Arequest, sender = \<lparr>api_key = key\<rparr>, meth = ''post'', url = ''/moderations'',
              body = [''input'' \<mapsto> input]\<rparr>] \<and>
   [''input'' \<mapsto> input] ''model'' = None \<and>
   (m \<in> set VALID_MODEL_NAMES \<longrightarrow>
      snd (Moderation_create request input (Some m) key net) =
        net @ [\<lparr>via = Request, sender = \<lparr>api_key = key\<rparr>, meth = ''post'', url = ''/moderations'',
                 body = [''input'' \<mapsto> input, ''model'' \<mapsto> m]\<rparr>] \<and>
      snd (Moderation_acreate arequest input (Some m) key net) =
        net @ [\<lparr>via = Arequest, sender = \<lparr>api_key = key\<rparr>, meth = ''post'', url = ''/moderations'',
                 body = [''input'' \<mapsto> input, ''model'' \<mapsto> m]\<rparr>])"
  by (simp add: Moderation_create_def Moderation_acreate_def Moderation_prepare_create_def
      Moderation_get_url_def)

theorem moderation_request_body_witness:
  "snd (Moderation_create (\<lambda>i m u p. Inr (0::nat)) ''hello'' (Some ''text-moderation-latest'') None []) =
     [\<lparr>via = Request, sender = \<lparr>api_key = None\<rparr>, meth = ''post'', url = ''/moderations'',
       body = [''input'' \<mapsto> ''hello'', ''model'' \<mapsto> ''text-moderation-latest'']\<rparr>] \<and>
   snd (Moderation_acreate (\<lambda>i m u p. Inr (0::nat)) ''hello'' (Some ''text-moderation-latest'') None []) =
     [\<lparr>via = Arequest, sender = \<lparr>api_key = None\<rparr>, meth = ''post'', url = ''/moderations'',
       body = [''input'' \<mapsto> ''hello'', ''model'' \<mapsto> ''text-moderation-latest'']\<rparr>]"
  using moderation_request_body
    [of "\<lambda>i m u p. Inr (0::nat)" "''hello''" None "[]" "\<lambda>i m u p. Inr (0::nat)" "''text-moderation-latest''"]
  by (simp add: VALID_MODEL_NAMES_def)

section \<open>Logger.sync\<close>

text \<open>
  C10. Without wandb, \<open>Logger.sync\<close> returns \<open>None\<close> for all arguments, with no effect at all: neither
  \<open>FineTune.retrieve\<close> nor \<open>FineTune.list\<close> is called, and nothing is raised. With wandb, when the
  jobs are listed (\<open>id\<close> is \<open>None\<close> or empty) and the listing is empty or has no \<open>"data"\<close> field, it
  returns \<open>None\<close> after the listing call and one printed line, with no \<open>_log_fine_tune\<close> call.
\<close>

theorem sync_returns_none_without_work:
  "Logger_sync False retrieve list_jobs log_fine_tune ident n_jobs = (Inr None, []) \<and>
   (\<not> truthy ident \<and> list_jobs = Inr fine_tunes \<and>
    (fine_tunes = [] \<or> ''data'' \<notin> fst ` set fine_tunes) \<longrightarrow>
      Logger_sync True retrieve list_jobs log_fine_tune ident n_jobs =
        (Inr None, [List_Jobs, Print ''No fine-tune jobs have been retrieved'']))"
proof -
  have "get fine_tunes ''data'' = None" if "''data'' \<notin> fst ` set fine_tunes"
  proof -
    from that have "map_of fine_tunes ''data'' = None" by (simp add: map_of_eq_None_iff)
    then show ?thesis by (simp add: get_def)
  qed
  moreover have "get fine_tunes ''data'' = None" if "fine_tunes = []"
    using that by (simp add: get_def)
  ultimately show ?thesis
    by (auto simp: Logger_sync_def)
qed

theorem sync_returns_none_without_work_witness:
  "Logger_sync False (\<lambda>i. Inr [(''id'', i)]) (Inr [(''data'', Some [[(''id'', ''ft-1'')]])])
      (\<lambda>j sw. Inr True) (Some ''ft-1'') (Some 3) = (Inr None, []) \<and>
   Logger_sync True (\<lambda>i. Inr [(''id'', i)]) (Inr [(''object'', None)]) (\<lambda>j sw. Inr True) None None =
      (Inr None, [List_Jobs, Print ''No fine-tune jobs have been retrieved'']) \<and>
   Logger_sync True (\<lambda>i. Inr [(''id'', i)]) (Inr []) (\<lambda>j sw. Inr True) (Some []) (Some 2) =
      (Inr None, [List_Jobs, Print ''No fine-tune jobs have been retrieved''])"
proof -
  have a: "Logger_sync False (\<lambda>i. Inr [(''id'', i)]) (Inr [(''data'', Some [[(''id'', ''ft-1'')]])])
      (\<lambda>j sw. Inr True) (Some ''ft-1'') (Some 3) = (Inr None, [])"
    using sync_returns_none_without_work
      [of "\<lambda>i. Inr [(''id'', i)]" "Inr [(''data'', Some [[(''id'', ''ft-1'')]])]" "\<lambda>j sw. Inr True"
          "Some ''ft-1''" "Some 3"]
    by blast
  have b: "Logger_sync True (\<lambda>i. Inr [(''id'', i)]) (Inr [(''object'', None)]) (\<lambda>j sw. Inr True) None None =
      (Inr None, [List_Jobs, Print ''No fine-tune jobs have been retrieved''])"
    using sync_returns_none_without_work
      [of "\<lambda>i. Inr [(''id'', i)]" "Inr [(''object'', None)]" "\<lambda>j sw. Inr True" None None
          "[(''object'', None)]"]
    by (simp add: truthy_def)
  have c: "Logger_sync True (\<lambda>i. Inr [(''id'', i)]) (Inr []) (\<lambda>j sw. Inr True) (Some []) (Some 2) =
      (Inr None, [List_Jobs, Print ''No fine-tune jobs have been retrieved''])"
    using sync_returns_none_without_work
      [of "\<lambda>i. Inr [(''id'', i)]" "Inr []" "\<lambda>j sw. Inr True" "Some []" "Some 2" "[]"]
    by (simp add: truthy_def)
  from a b c show ?thesis by blast
qed

end
